theory Spec2Isabelle
  imports Complex_Main "HOL-Library.Sublist"
begin

section \<open>Album studio: layout engine, unit conversion and export compositor\<close>

text \<open>
  A shallow embedding of \<^verbatim>\<open>src/lib/layouts.ts\<close>, of the utility functions of
  \<^verbatim>\<open>types/album.ts\<close> and of \<^verbatim>\<open>handleExport\<close> in the export dialog.

  JavaScript numbers are modelled as exact reals: rounding errors of double arithmetic,
  and numbers beyond the reals, are outside the model, except in the cover fit, where the
  source compares quotients whose divisor can be zero (see \<open>coverFit\<close>).
\<close>

subsection \<open>Data model (\<^verbatim>\<open>types/album.ts\<close>)\<close>

record AlbumSize =
  size_id :: string
  size_name :: string
  size_width :: real
  size_height :: real
  isPreset :: bool

record GutterSettings =
  enabled :: bool
  widthInches :: real

record Album =
  album_id :: string
  album_name :: string
  album_createdAt :: string
  album_updatedAt :: string
  size :: AlbumSize
  dpi :: real
  gutter :: GutterSettings
  spreadIds :: "string list"
  coverImageUrl :: "string option"

text \<open>\<^verbatim>\<open>Omit<PhotoFrame, 'id' | 'photoId'>\<close>: what a template produces.\<close>

record TemplateFrame =
  x :: real
  y :: real
  width :: real
  height :: real
  rotation :: real
  scaleX :: real
  scaleY :: real
  imageOffsetX :: real
  imageOffsetY :: real
  imageScale :: real
  locked :: bool
  zIndex :: nat
  brightness :: real
  contrast :: real
  temperature :: real
  vibrance :: real

text \<open>\<^verbatim>\<open>PhotoFrame\<close>: a template frame with its own id and the id of its photo.\<close>

record PhotoFrame = TemplateFrame +
  frame_id :: string
  photoId :: string

record Photo =
  photo_id :: string
  photo_albumId :: string
  filename :: string
  photo_width :: real
  photo_height :: real
  thumbnailUrl :: string
  photo_createdAt :: string

text \<open>\<^verbatim>\<open>{ frames: PhotoFrame[] }\<close>, and \<^verbatim>\<open>Spread\<close>, which has that field and more.\<close>

record SpreadFrames =
  frames :: "PhotoFrame list"


subsection \<open>Unit conversion\<close>

text \<open>\<^verbatim>\<open>Math.round\<close> is \<open>\<lfloor>v + 1/2\<rfloor>\<close>, which is \<^const>\<open>round\<close>.\<close>

definition inchesToPixels :: "real \<Rightarrow> real \<Rightarrow> real" where
  "inchesToPixels inches d = real_of_int (round (inches * d))"

definition pixelsToInches :: "real \<Rightarrow> real \<Rightarrow> real" where
  "pixelsToInches pixels d = pixels / d"

definition getCanvasDimensions :: "Album \<Rightarrow> real \<times> real" where
  "getCanvasDimensions album =
     (inchesToPixels (size_width (size album)) (dpi album),
      inchesToPixels (size_height (size album)) (dpi album))"

definition getGutterPixels :: "Album \<Rightarrow> real" where
  "getGutterPixels album =
     (if \<not> enabled (gutter album) then 0
      else inchesToPixels (widthInches (gutter album)) (dpi album))"

subsection \<open>Layout templates (\<^verbatim>\<open>lib/layouts.ts\<close>)\<close>

record LayoutTemplate =
  template_id :: string
  template_name :: string
  photoCount :: int
  generateFrames :: "real \<Rightarrow> real \<Rightarrow> real \<Rightarrow> real \<Rightarrow> TemplateFrame list"

definition MARGIN :: real where
  "MARGIN = 60"

definition SPACING :: real where
  "SPACING = 20"

text \<open>
  Every frame literal of the catalogue has the same twelve constant fields; \<open>mk_frame\<close>
  writes them once. Its arguments are the fields that vary: x, y, width, height, zIndex.
\<close>

definition mk_frame :: "real \<Rightarrow> real \<Rightarrow> real \<Rightarrow> real \<Rightarrow> nat \<Rightarrow> TemplateFrame" where
  "mk_frame fx fy fw fh z =
     \<lparr> x = fx, y = fy, width = fw, height = fh,
       rotation = 0, scaleX = 1, scaleY = 1, imageOffsetX = 0, imageOffsetY = 0,
       imageScale = 1, locked = False, zIndex = z,
       brightness = 0, contrast = 0, temperature = 0, vibrance = 0 \<rparr>"

definition single_full :: LayoutTemplate where
  "single_full =
     \<lparr> template_id = ''single-full'', template_name = ''Single Full Bleed'', photoCount = 1,
       generateFrames = (\<lambda>w h gutter margin. [mk_frame 0 0 w h 0]) \<rparr>"

definition two_side_by_side :: LayoutTemplate where
  "two_side_by_side =
     \<lparr> template_id = ''two-side-by-side'', template_name = ''Two Side by Side'', photoCount = 2,
       generateFrames = (\<lambda>w h gutter margin.
         let halfWidth = (w - gutter) / 2 - margin;
             frameHeight = h - margin * 2
         in [mk_frame margin margin (halfWidth - SPACING / 2) frameHeight 0,
             mk_frame (w / 2 + gutter / 2 + SPACING / 2) margin
                      (halfWidth - SPACING / 2) frameHeight 1]) \<rparr>"

definition three_one_two :: LayoutTemplate where
  "three_one_two =
     \<lparr> template_id = ''three-one-two'', template_name = ''One Large + Two Small'', photoCount = 3,
       generateFrames = (\<lambda>w h gutter margin.
         let leftWidth = (w - gutter) / 2 - margin;
             rightWidth = (w - gutter) / 2 - margin;
             smallHeight = (h - margin * 2 - SPACING) / 2
         in [mk_frame margin margin (leftWidth - SPACING / 2) (h - margin * 2) 0,
             mk_frame (w / 2 + gutter / 2 + SPACING / 2) margin
                      (rightWidth - SPACING / 2) smallHeight 1,
             mk_frame (w / 2 + gutter / 2 + SPACING / 2) (margin + smallHeight + SPACING)
                      (rightWidth - SPACING / 2) smallHeight 2]) \<rparr>"

definition four_grid :: LayoutTemplate where
  "four_grid =
     \<lparr> template_id = ''four-grid'', template_name = ''Four Grid'', photoCount = 4,
       generateFrames = (\<lambda>w h gutter margin.
         let halfWidth = (w - gutter) / 2 - margin - SPACING / 2;
             halfHeight = (h - margin * 2 - SPACING) / 2
         in [mk_frame margin margin (halfWidth / 2 - SPACING / 4) halfHeight 0,
             mk_frame (margin + halfWidth / 2 + SPACING / 2) margin
                      (halfWidth / 2 - SPACING / 4) halfHeight 1,
             mk_frame (w / 2 + gutter / 2 + SPACING / 2) margin
                      (halfWidth / 2 - SPACING / 4) halfHeight 2,
             mk_frame (w / 2 + gutter / 2 + SPACING / 2 + halfWidth / 2 + SPACING / 2) margin
                      (halfWidth / 2 - SPACING / 4) halfHeight 3]) \<rparr>"

definition six_mosaic :: LayoutTemplate where
  "six_mosaic =
     \<lparr> template_id = ''six-mosaic'', template_name = ''Six Mosaic'', photoCount = 6,
       generateFrames = (\<lambda>w h gutter margin.
         let leftWidth = (w - gutter) / 2 - margin;
             rightWidth = (w - gutter) / 2 - margin;
             thirdHeight = (h - margin * 2 - SPACING * 2) / 3;
             halfHeight = (h - margin * 2 - SPACING) / 2
         in [mk_frame margin margin (leftWidth / 2 - SPACING / 2) thirdHeight 0,
             mk_frame margin (margin + thirdHeight + SPACING)
                      (leftWidth / 2 - SPACING / 2) thirdHeight 1,
             mk_frame margin (margin + thirdHeight * 2 + SPACING * 2)
                      (leftWidth / 2 - SPACING / 2) thirdHeight 2,
             mk_frame (margin + leftWidth / 2 + SPACING / 2) margin
                      (leftWidth / 2 - SPACING) (h - margin * 2) 3,
             mk_frame (w / 2 + gutter / 2 + SPACING / 2) margin
                      (rightWidth - SPACING / 2) halfHeight 4,
             mk_frame (w / 2 + gutter / 2 + SPACING / 2) (margin + halfHeight + SPACING)
                      (rightWidth - SPACING / 2) halfHeight 5]) \<rparr>"

definition LAYOUT_TEMPLATES :: "LayoutTemplate list" where
  "LAYOUT_TEMPLATES = [single_full, two_side_by_side, three_one_two, four_grid, six_mosaic]"

text \<open>
  \<^verbatim>\<open>getLayoutForPhotoCount\<close>. \<^verbatim>\<open>Array.prototype.find\<close> is \<^const>\<open>find\<close>; the comparator
  sort is ascending in \<open>\<bar>photoCount - count\<bar>\<close> and stable, as \<^const>\<open>sort_key\<close> is (an
  insertion sort that puts an element before the equal ones that follow it in the input).
  \<^verbatim>\<open>sorted[0]\<close> of an empty array is \<^verbatim>\<open>undefined\<close>: \<open>None\<close>.
\<close>

definition getLayoutForPhotoCount :: "int \<Rightarrow> LayoutTemplate option" where
  "getLayoutForPhotoCount count =
     (case find (\<lambda>t. photoCount t = count) LAYOUT_TEMPLATES of
        Some exact \<Rightarrow> Some exact
      | None \<Rightarrow>
          (let sorted_templates =
                 sort_key (\<lambda>t. \<bar>photoCount t - count\<bar>) LAYOUT_TEMPLATES
           in case sorted_templates of [] \<Rightarrow> None | t # _ \<Rightarrow> Some t))"

text \<open>
  \<^verbatim>\<open>generateFramesForLayout\<close>. \<^verbatim>\<open>uuidv4()\<close> is the source's only effect: the model
  takes the generator as a function of the number of calls made so far, and threads that
  number (\<open>k\<close> in, the new count out). The optional \<^verbatim>\<open>margin\<close> defaults to \<open>MARGIN\<close>.
  \<^verbatim>\<open>photos[index]?.id || ''\<close> is the photo's id when the index is in range (an empty
  id gives the empty string either way), the empty string otherwise.
\<close>

definition generateFramesForLayout ::
  "(nat \<Rightarrow> string) \<Rightarrow> nat \<Rightarrow> LayoutTemplate \<Rightarrow> Photo list \<Rightarrow> real \<Rightarrow> real \<Rightarrow> real \<Rightarrow> real option
     \<Rightarrow> PhotoFrame list \<times> nat" where
  "generateFramesForLayout uuidv4 k template photos canvasWidth canvasHeight gutterWidth margin =
     (let templateFrames =
            generateFrames template canvasWidth canvasHeight gutterWidth
              (case margin of None \<Rightarrow> MARGIN | Some m \<Rightarrow> m);
          sliced = take (length photos) templateFrames
      in (map (\<lambda>(index, frame).
                 TemplateFrame.extend frame
                   (PhotoFrame.fields (uuidv4 (k + index))
                      (if index < length photos then photo_id (photos ! index) else [])))
              (enumerate 0 sliced),
          k + length sliced))"

text \<open>
  \<^verbatim>\<open>autoGenerateSpreads\<close>. The loop \<^verbatim>\<open>for (i = 0; i < photos.length; i += photosPerSpread)\<close>
  never ends when \<^verbatim>\<open>photosPerSpread\<close> is 0 and there is a photo; a template that is
  \<^verbatim>\<open>undefined\<close> makes \<^verbatim>\<open>template.generateFrames\<close> throw a TypeError.
\<close>

datatype layout_error = TypeError_no_template | Loops_forever

function autoGenerateSpreads_loop ::
  "(nat \<Rightarrow> string) \<Rightarrow> Photo list \<Rightarrow> nat \<Rightarrow> real \<Rightarrow> real \<Rightarrow> real \<Rightarrow> real \<Rightarrow> nat \<Rightarrow> nat
     \<Rightarrow> SpreadFrames list \<Rightarrow> layout_error + (SpreadFrames list \<times> nat)" where
  "autoGenerateSpreads_loop uuidv4 photos photosPerSpread cw ch gutterWidth margin i k spreads =
     (if i < length photos then
        (if photosPerSpread = 0 then Inl Loops_forever
         else
           (let spreadPhotos = take photosPerSpread (drop i photos)
            in case getLayoutForPhotoCount (int (length spreadPhotos)) of
                 None \<Rightarrow> Inl TypeError_no_template
               | Some template \<Rightarrow>
                   (case generateFramesForLayout uuidv4 k template spreadPhotos
                           cw ch gutterWidth (Some margin) of
                      (fs, k') \<Rightarrow>
                        autoGenerateSpreads_loop uuidv4 photos photosPerSpread cw ch gutterWidth
                          margin (i + photosPerSpread) k' (spreads @ [\<lparr> frames = fs \<rparr>]))))
      else Inr (spreads, k))"
  by pat_completeness auto
termination
  by (relation "measure (\<lambda>(uuidv4, photos, photosPerSpread, cw, ch, gutterWidth, margin, i, k, spreads).
                  length photos - i)") auto

declare autoGenerateSpreads_loop.simps [simp del]

definition autoGenerateSpreads ::
  "(nat \<Rightarrow> string) \<Rightarrow> nat \<Rightarrow> Photo list \<Rightarrow> nat \<Rightarrow> Album
     \<Rightarrow> layout_error + (SpreadFrames list \<times> nat)" where
  "autoGenerateSpreads uuidv4 k photos photosPerSpread album =
     (case getCanvasDimensions album of
        (cw, ch) \<Rightarrow>
          (let gutterWidth = getGutterPixels album;
               margin = real_of_int (round (dpi album * 0.2))
           in autoGenerateSpreads_loop uuidv4 photos photosPerSpread cw ch gutterWidth margin
                0 k []))"

subsection \<open>Export compositor (\<^verbatim>\<open>handleExport\<close> of the export dialog)\<close>

text \<open>
  The cover fit of lines 279 to 292. The two aspect ratios are quotients that only the
  comparison reads; in JavaScript a zero divisor makes such a quotient Infinity, -Infinity
  or NaN, and the comparison decides as IEEE 754 does (false whenever a side is NaN).
  \<open>js_div\<close> and \<open>js_gt\<close> are that division of two reals and that comparison (the model
  has one zero, so the sign of a JavaScript \<^verbatim>\<open>-0\<close> divisor is outside it). The branch
  taken then divides by \<^verbatim>\<open>img.height\<close> or by \<^verbatim>\<open>img.width\<close> for the scale: when that
  divisor is zero the scale is not a real number and the model returns \<open>None\<close>; otherwise
  it returns \<open>Some (scale, offsetX, offsetY)\<close>.
\<close>

datatype js_num = Finite real | PosInfinity | NegInfinity | NaN

definition js_div :: "real \<Rightarrow> real \<Rightarrow> js_num" where
  "js_div a b =
     (if b \<noteq> 0 then Finite (a / b)
      else if 0 < a then PosInfinity
      else if a < 0 then NegInfinity
      else NaN)"

fun js_gt :: "js_num \<Rightarrow> js_num \<Rightarrow> bool" where
  "js_gt NaN b = False"
| "js_gt a NaN = False"
| "js_gt (Finite a) (Finite b) = (a > b)"
| "js_gt (Finite a) PosInfinity = False"
| "js_gt (Finite a) NegInfinity = True"
| "js_gt PosInfinity PosInfinity = False"
| "js_gt PosInfinity b = True"
| "js_gt NegInfinity b = False"

definition coverFit :: "real \<Rightarrow> real \<Rightarrow> real \<Rightarrow> real \<Rightarrow> (real \<times> real \<times> real) option" where
  "coverFit imgWidth imgHeight frameWidth frameHeight =
     (let imgAspect = js_div imgWidth imgHeight;
          frameAspect = js_div frameWidth frameHeight
      in if js_gt imgAspect frameAspect then
           (if imgHeight = 0 then None
            else
              (let scale = frameHeight / imgHeight
               in Some (scale, (frameWidth - imgWidth * scale) / 2, 0)))
         else
           (if imgWidth = 0 then None
            else
              (let scale = frameWidth / imgWidth
               in Some (scale, 0, (frameHeight - imgHeight * scale) / 2))))"

text \<open>
  The browser, as far as the export uses it. A decoded image has a width and a height
  (\<^verbatim>\<open>HTMLImageElement\<close>: unsigned integers); a blob is its bytes. The calls on the 2D
  context are recorded in order. \<open>DrawImage\<close> carries the four numeric arguments, or
  \<open>None\<close> when the cover fit is not a real number.
\<close>

record Image =
  img_width :: nat
  img_height :: nat

type_synonym Blob = string

datatype exn = TypeError | StorageError | ImageLoadError | CanvasError

datatype canvas_op =
    FillStyle string
  | FillRect real real real real
  | Save
  | BeginPath
  | Rect real real real real
  | Clip
  | Translate real real
  | Rotate real
  | SetFilter real real
  | DrawImage Image "(real \<times> real \<times> real \<times> real) option"
  | Restore

datatype log_entry = Failed_to_draw_frame string exn | Export_failed exn


text \<open>
  What the export reads from its surroundings: the \<^verbatim>\<open>photoUrls\<close> map, the storage
  lookup \<^verbatim>\<open>getPhotoBlob\<close> (which may throw, or find no blob), \<^verbatim>\<open>loadImage\<close> (whose
  promise may reject), \<^verbatim>\<open>ctx.drawImage\<close> (which may throw) and \<^verbatim>\<open>canvas.toBlob\<close>
  (which may throw, or hand a null blob to its callback).
\<close>

record ExportEnv =
  photoUrls :: "string \<rightharpoonup> string"
  getPhotoBlob :: "string \<Rightarrow> exn + Blob option"
  loadImage :: "Blob \<Rightarrow> exn + Image"
  drawImage :: "Image \<Rightarrow> exn option"
  toBlob :: "canvas_op list \<Rightarrow> exn + Blob option"

text \<open>The calls from \<^verbatim>\<open>ctx.save()\<close> up to the filter, lines 274 to 302.\<close>

definition frame_setup_ops :: "PhotoFrame \<Rightarrow> canvas_op list" where
  "frame_setup_ops frame =
     [Save, BeginPath, Rect (x frame) (y frame) (width frame) (height frame), Clip]
     @ (if rotation frame \<noteq> 0 then
          [Translate (x frame + width frame / 2) (y frame + height frame / 2),
           Rotate (rotation frame * pi / 180),
           Translate (- (x frame + width frame / 2)) (- (y frame + height frame / 2))]
        else [])
     @ (if brightness frame \<noteq> 0 \<or> contrast frame \<noteq> 0 then
          [SetFilter (1 + brightness frame / 100) (1 + contrast frame / 100)]
        else [])"

text \<open>The \<^verbatim>\<open>ctx.drawImage\<close> call of lines 304 to 310.\<close>

definition drawImage_call :: "PhotoFrame \<Rightarrow> Image \<Rightarrow> canvas_op" where
  "drawImage_call frame img =
     DrawImage img
       (case coverFit (real (img_width img)) (real (img_height img)) (width frame) (height frame) of
          None \<Rightarrow> None
        | Some (scale, offsetX, offsetY) \<Rightarrow>
            Some (x frame + offsetX + imageOffsetX frame,
                  y frame + offsetY + imageOffsetY frame,
                  real (img_width img) * scale * imageScale frame,
                  real (img_height img) * scale * imageScale frame))"

text \<open>
  One turn of \<^verbatim>\<open>for (const frame of spread.frames)\<close>, on the pair of the calls made
  on the context so far and the console. \<^verbatim>\<open>if (!photoUrl) continue\<close> also skips an
  empty URL; an exception inside the \<^verbatim>\<open>try\<close> is logged by the \<^verbatim>\<open>catch\<close>.
\<close>

definition renderFrame ::
  "ExportEnv \<Rightarrow> PhotoFrame \<Rightarrow> canvas_op list \<times> log_entry list \<Rightarrow> canvas_op list \<times> log_entry list" where
  "renderFrame env frame st =
     (case st of
        (ops, console) \<Rightarrow>
          (case photoUrls env (photoId frame) of
             None \<Rightarrow> st
           | Some photoUrl \<Rightarrow>
               if photoUrl = [] then st
               else
                 (case getPhotoBlob env (photoId frame) of
                    Inl e \<Rightarrow> (ops, console @ [Failed_to_draw_frame (frame_id frame) e])
                  | Inr None \<Rightarrow> st
                  | Inr (Some blob) \<Rightarrow>
                      (case loadImage env blob of
                         Inl e \<Rightarrow> (ops, console @ [Failed_to_draw_frame (frame_id frame) e])
                       | Inr img \<Rightarrow>
                           (case drawImage env img of
                              Some e \<Rightarrow>
                                (ops @ frame_setup_ops frame,
                                 console @ [Failed_to_draw_frame (frame_id frame) e])
                            | None \<Rightarrow>
                                (ops @ frame_setup_ops frame @ [drawImage_call frame img, Restore],
                                 console))))))"

text \<open>The white background and the frame loop of one spread, lines 259 to 317.\<close>

definition renderSpread ::
  "ExportEnv \<Rightarrow> real \<times> real \<Rightarrow> PhotoFrame list \<Rightarrow> log_entry list \<Rightarrow> canvas_op list \<times> log_entry list" where
  "renderSpread env dims fs console =
     fold (renderFrame env) fs
       ([FillStyle ''#ffffff'', FillRect 0 0 (fst dims) (snd dims)], console)"





subsection \<open>Notions the properties are stated with\<close>

text \<open>A rectangle with non-negative sides whose extent lies in \<open>[0, w] \<times> [0, h]\<close>.\<close>

definition inside_canvas :: "real \<Rightarrow> real \<Rightarrow> TemplateFrame \<Rightarrow> bool" where
  "inside_canvas w h r \<longleftrightarrow>
     0 \<le> width r \<and> 0 \<le> height r \<and>
     0 \<le> x r \<and> x r + width r \<le> w \<and> 0 \<le> y r \<and> y r + height r \<le> h"

definition positive_size :: "TemplateFrame \<Rightarrow> bool" where
  "positive_size r \<longleftrightarrow> 0 < width r \<and> 0 < height r"

text \<open>Two closed rectangles share a point (touching edges count).\<close>

definition overlap :: "TemplateFrame \<Rightarrow> TemplateFrame \<Rightarrow> bool" where
  "overlap a b \<longleftrightarrow>
     x a \<le> x b + width b \<and> x b \<le> x a + width a \<and>
     y a \<le> y b + height b \<and> y b \<le> y a + height a"

text \<open>
  The rectangle's horizontal extent \<open>[x, x + width]\<close> misses the closed gutter strip
  \<open>[w/2 - g/2, w/2 + g/2]\<close>: it ends before the strip or starts after it.
\<close>

definition clear_of_gutter :: "real \<Rightarrow> real \<Rightarrow> TemplateFrame \<Rightarrow> bool" where
  "clear_of_gutter w g r \<longleftrightarrow> x r + width r < w / 2 - g / 2 \<or> w / 2 + g / 2 < x r"

text \<open>
  The image a frame's photo resolves to: the URL is there, the blob is found, the image
  loads and the draw call does not throw.
\<close>

definition frame_image :: "ExportEnv \<Rightarrow> PhotoFrame \<Rightarrow> Image option" where
  "frame_image env frame =
     (case photoUrls env (photoId frame) of
        None \<Rightarrow> None
      | Some photoUrl \<Rightarrow>
          if photoUrl = [] then None
          else
            (case getPhotoBlob env (photoId frame) of
               Inr (Some blob) \<Rightarrow>
                 (case loadImage env blob of
                    Inr img \<Rightarrow> (if drawImage env img = None then Some img else None)
                  | Inl e \<Rightarrow> None)
             | _ \<Rightarrow> None))"

fun is_DrawImage :: "canvas_op \<Rightarrow> bool" where
  "is_DrawImage (DrawImage img args) = True"
| "is_DrawImage other = False"

text \<open>
  What a recorded call sequence does to the drawing state of the 2D context, as the HTML
  standard describes it: \<^verbatim>\<open>save()\<close> pushes the drawing state, \<^verbatim>\<open>restore()\<close> pops it
  (and does nothing on an empty stack), \<^verbatim>\<open>clip()\<close> intersects the clipping region with
  the current path, and the current path is not part of the saved state. The drawing state
  is kept as the list of the changes in force, oldest first; no geometry is computed.
  \<open>draws_under\<close> pairs every \<^verbatim>\<open>drawImage\<close> call with the changes in force when it is
  made, and \<open>frame_changes\<close> are the changes a frame makes for its own draw.
\<close>

type_synonym rect = "real \<times> real \<times> real \<times> real"

datatype state_change =
    Clipped "rect list"
  | Translated real real
  | Rotated real
  | Filtered real real

type_synonym ctx = "state_change list \<times> rect list \<times> state_change list list"

fun ctx_step :: "canvas_op \<Rightarrow> ctx \<Rightarrow> ctx" where
  "ctx_step Save (st, path, saved) = (st, path, st # saved)"
| "ctx_step Restore (st, path, saved) =
     (case saved of [] \<Rightarrow> (st, path, []) | s # rest \<Rightarrow> (s, path, rest))"
| "ctx_step BeginPath (st, path, saved) = (st, [], saved)"
| "ctx_step (Rect a b c d) (st, path, saved) = (st, path @ [(a, b, c, d)], saved)"
| "ctx_step Clip (st, path, saved) = (st @ [Clipped path], path, saved)"
| "ctx_step (Translate a b) (st, path, saved) = (st @ [Translated a b], path, saved)"
| "ctx_step (Rotate a) (st, path, saved) = (st @ [Rotated a], path, saved)"
| "ctx_step (SetFilter a b) (st, path, saved) = (st @ [Filtered a b], path, saved)"
| "ctx_step other c = c"

fun draws_under :: "canvas_op list \<Rightarrow> ctx \<Rightarrow> (canvas_op \<times> state_change list) list" where
  "draws_under [] c = []"
| "draws_under (DrawImage img args # ops) c =
     (DrawImage img args, fst c) # draws_under ops c"
| "draws_under (other # ops) c = draws_under ops (ctx_step other c)"

definition frame_changes :: "PhotoFrame \<Rightarrow> state_change list" where
  "frame_changes frame =
     [Clipped [(x frame, y frame, width frame, height frame)]]
     @ (if rotation frame \<noteq> 0 then
          [Translated (x frame + width frame / 2) (y frame + height frame / 2),
           Rotated (rotation frame * pi / 180),
           Translated (- (x frame + width frame / 2)) (- (y frame + height frame / 2))]
        else [])
     @ (if brightness frame \<noteq> 0 \<or> contrast frame \<noteq> 0 then
          [Filtered (1 + brightness frame / 100) (1 + contrast frame / 100)]
        else [])"

text \<open>
  The arguments of \<^verbatim>\<open>setProgress\<close> that \<open>len\<close> turns of the export loop make, from
  index \<open>i\<close> on, with \<open>n\<close> spreads in all: before and after each spread.
\<close>

definition progress_of :: "nat \<Rightarrow> nat \<Rightarrow> nat \<Rightarrow> real list" where
  "progress_of n i len =
     concat (map (\<lambda>j. [real j / real n * 100, real (j + 1) / real n * 100]) [i ..< i + len])"


subsection \<open>Concrete data for the instances\<close>

text \<open>A 12 by 18 inch album at 300 dpi with a quarter-inch gutter: 5400 by 3600 pixels.\<close>

definition example_album :: Album where
  "example_album =
     \<lparr> album_id = ''album-1'', album_name = ''Wedding'', album_createdAt = [], album_updatedAt = [],
       size = \<lparr> size_id = ''12x18'', size_name = ''12x18'', size_width = 18, size_height = 12,
                 isPreset = True \<rparr>,
       dpi = 300, gutter = \<lparr> enabled = True, widthInches = 1 / 4 \<rparr>,
       spreadIds = [], coverImageUrl = None \<rparr>"




definition example_photo :: "string \<Rightarrow> Photo" where
  "example_photo pid =
     \<lparr> photo_id = pid, photo_albumId = ''album-1'', filename = pid @ ''.jpg'',
       photo_width = 4000, photo_height = 3000, thumbnailUrl = [], photo_createdAt = [] \<rparr>"

text \<open>
  Two photos that load, the draw of the first throwing, and the two frames that Two Side by
  Side gives them on the 5400 by 3600 canvas with a 75 pixel gutter and a 60 pixel margin.
\<close>

definition example_env_draw_throws :: ExportEnv where
  "example_env_draw_throws =
     \<lparr> photoUrls = [''p1'' \<mapsto> ''blob:p1'', ''p2'' \<mapsto> ''blob:p2''],
       getPhotoBlob = (\<lambda>pid. Inr (Some pid)),
       loadImage = (\<lambda>blob. if blob = ''p1'' then Inr \<lparr> img_width = 4000, img_height = 2000 \<rparr>
                             else Inr \<lparr> img_width = 3000, img_height = 2000 \<rparr>),
       drawImage = (\<lambda>img. if img_width img = 4000 then Some CanvasError else None),
       toBlob = (\<lambda>ops. Inr (Some ''jpeg'')) \<rparr>"

definition example_frames :: "PhotoFrame list" where
  "example_frames =
     fst (generateFramesForLayout (\<lambda>n. if n = 0 then ''frame-1'' else ''frame-2'') 0 two_side_by_side
            [example_photo ''p1'', example_photo ''p2''] 5400 3600 75 (Some 60))"

section \<open>Properties\<close>

subsection \<open>The catalogue\<close>

lemmas template_defs =
  single_full_def two_side_by_side_def three_one_two_def four_grid_def six_mosaic_def

lemmas geometry_defs = mk_frame_def Let_def SPACING_def

lemma catalogue_cases:
  "t \<in> set LAYOUT_TEMPLATES \<Longrightarrow>
   t = single_full \<or> t = two_side_by_side \<or> t = three_one_two \<or> t = four_grid \<or> t = six_mosaic"
  by (auto simp: LAYOUT_TEMPLATES_def)

lemma catalogue_nonempty: "LAYOUT_TEMPLATES \<noteq> []"
  by (simp add: LAYOUT_TEMPLATES_def)

lemma length_generateFrames:
  "t \<in> set LAYOUT_TEMPLATES \<Longrightarrow> int (length (generateFrames t w h g m)) = photoCount t"
  by (auto dest!: catalogue_cases simp: template_defs Let_def)

subsection \<open>Frames inside the canvas\<close>

lemma single_full_inside:
  "0 \<le> w \<Longrightarrow> 0 \<le> h \<Longrightarrow> \<forall>r\<in>set (generateFrames single_full w h g m). inside_canvas w h r"
  by (simp add: single_full_def inside_canvas_def mk_frame_def)

lemma two_side_by_side_inside:
  "0 \<le> g \<Longrightarrow> 0 \<le> m \<Longrightarrow> 40 \<le> (w - g) / 2 - m \<Longrightarrow> 40 \<le> h - 2 * m \<Longrightarrow>
   \<forall>r\<in>set (generateFrames two_side_by_side w h g m). inside_canvas w h r"
  by (simp add: two_side_by_side_def inside_canvas_def geometry_defs) argo

lemma three_one_two_inside:
  "0 \<le> g \<Longrightarrow> 0 \<le> m \<Longrightarrow> 40 \<le> (w - g) / 2 - m \<Longrightarrow> 40 \<le> h - 2 * m \<Longrightarrow>
   \<forall>r\<in>set (generateFrames three_one_two w h g m). inside_canvas w h r"
  by (simp add: three_one_two_def inside_canvas_def geometry_defs) argo

lemma four_grid_inside:
  "0 \<le> g \<Longrightarrow> 5 \<le> m \<Longrightarrow> 40 \<le> (w - g) / 2 - m \<Longrightarrow> 40 \<le> h - 2 * m \<Longrightarrow>
   \<forall>r\<in>set (generateFrames four_grid w h g m). inside_canvas w h r"
  by (simp add: four_grid_def inside_canvas_def geometry_defs) argo

lemma six_mosaic_inside:
  "0 \<le> g \<Longrightarrow> 0 \<le> m \<Longrightarrow> 40 \<le> (w - g) / 2 - m \<Longrightarrow> 40 \<le> h - 2 * m \<Longrightarrow>
   \<forall>r\<in>set (generateFrames six_mosaic w h g m). inside_canvas w h r"
  by (simp add: six_mosaic_def inside_canvas_def geometry_defs) argo

text \<open>
  The last frame of Four Grid ends at \<open>w - m + 5\<close>, whatever the sizes: its right margin is
  5 pixels narrower than the left one, and with a margin below 5 it ends outside the canvas.
\<close>

lemma four_grid_right_edge:
  "x (generateFrames four_grid w h g m ! 3) + width (generateFrames four_grid w h g m ! 3)
     = w - m + 5"
  by (simp add: four_grid_def geometry_defs) argo

text \<open>
  C1, as amended. Every template of the catalogue returns exactly \<open>photoCount\<close> rectangles.
  When the gutter and the margin are non-negative, each half of the canvas keeps at least 40
  pixels of width after the gutter and the margin (\<open>(w - g)/2 - m \<ge> 40\<close>), the height keeps
  at least 40 pixels after both margins (\<open>h - 2m \<ge> 40\<close>), and, for Four Grid, the margin is
  at least 5, every rectangle has non-negative width and height and lies within
  \<open>[0, w] \<times> [0, h]\<close>.
\<close>

theorem generateFrames_count_and_extent:
  assumes "t \<in> set LAYOUT_TEMPLATES"
    and "0 \<le> g" and "0 \<le> m"
    and "template_id t = ''four-grid'' \<longrightarrow> 5 \<le> m"
    and "40 \<le> (w - g) / 2 - m" and "40 \<le> h - 2 * m"
  shows "int (length (generateFrames t w h g m)) = photoCount t \<and>
         (\<forall>r\<in>set (generateFrames t w h g m). inside_canvas w h r)"
proof -
  have wh: "0 \<le> w" "0 \<le> h"
    using assms(2,3,5,6) by argo+
  have four: "5 \<le> m" if "t = four_grid"
    using that assms(4) by (simp add: four_grid_def)
  from catalogue_cases [OF assms(1)]
  have "\<forall>r\<in>set (generateFrames t w h g m). inside_canvas w h r"
    using single_full_inside [OF wh]
      two_side_by_side_inside [OF assms(2,3,5,6)]
      three_one_two_inside [OF assms(2,3,5,6)]
      four_grid_inside [OF assms(2) four assms(5,6)]
      six_mosaic_inside [OF assms(2,3,5,6)]
    by blast
  with length_generateFrames [OF assms(1)] show ?thesis by simp
qed

theorem generateFrames_count_and_extent_witness:
  "four_grid \<in> set LAYOUT_TEMPLATES \<and> (0::real) \<le> 75 \<and> (0::real) \<le> 60 \<and>
   (template_id four_grid = ''four-grid'' \<and> (5::real) \<le> 60) \<and>
   (40::real) \<le> (5400 - 75) / 2 - 60 \<and> (40::real) \<le> 3600 - 2 * 60 \<and>
   int (length (generateFrames four_grid 5400 3600 75 60)) = photoCount four_grid \<and>
   list_all (inside_canvas 5400 3600) (generateFrames four_grid 5400 3600 75 60)"
  using generateFrames_count_and_extent [of four_grid 75 60 5400 3600]
  by (simp add: LAYOUT_TEMPLATES_def four_grid_def list_all_iff)

text \<open>
  C1 as stated fails: with a margin below half the canvas width (45 of 100) and no gutter,
  the first frame of Two Side by Side has a negative width.
\<close>

theorem generateFrames_margin_below_half_width_counterexample:
  "two_side_by_side \<in> set LAYOUT_TEMPLATES \<and> (0::real) \<le> 0 \<and> (0::real) \<le> 45 \<and>
   (45::real) < 100 / 2 \<and>
   width (generateFrames two_side_by_side 100 100 0 45 ! 0) = - 5"
  by (simp add: LAYOUT_TEMPLATES_def two_side_by_side_def geometry_defs)

subsection \<open>Frames apart from each other and from the gutter\<close>

lemmas separation_defs = overlap_def clear_of_gutter_def positive_size_def geometry_defs

lemma two_side_by_side_apart:
  "0 \<le> g \<Longrightarrow> 0 \<le> m \<Longrightarrow> list_all positive_size (generateFrames two_side_by_side w h g m) \<Longrightarrow>
   sorted_wrt (\<lambda>a b. \<not> overlap a b) (generateFrames two_side_by_side w h g m) \<and>
   list_all (clear_of_gutter w g) (generateFrames two_side_by_side w h g m)"
  by (simp add: two_side_by_side_def separation_defs) argo

lemma three_one_two_apart:
  "0 \<le> g \<Longrightarrow> 0 \<le> m \<Longrightarrow> list_all positive_size (generateFrames three_one_two w h g m) \<Longrightarrow>
   sorted_wrt (\<lambda>a b. \<not> overlap a b) (generateFrames three_one_two w h g m) \<and>
   list_all (clear_of_gutter w g) (generateFrames three_one_two w h g m)"
  by (simp add: three_one_two_def separation_defs) argo

lemma four_grid_apart:
  "0 \<le> g \<Longrightarrow> 0 \<le> m \<Longrightarrow> list_all positive_size (generateFrames four_grid w h g m) \<Longrightarrow>
   sorted_wrt (\<lambda>a b. \<not> overlap a b) (generateFrames four_grid w h g m) \<and>
   list_all (clear_of_gutter w g) (generateFrames four_grid w h g m)"
  by (simp add: four_grid_def separation_defs) argo

lemma six_mosaic_apart:
  "0 \<le> g \<Longrightarrow> 0 \<le> m \<Longrightarrow> list_all positive_size (generateFrames six_mosaic w h g m) \<Longrightarrow>
   sorted_wrt (\<lambda>a b. \<not> overlap a b) (generateFrames six_mosaic w h g m) \<and>
   list_all (clear_of_gutter w g) (generateFrames six_mosaic w h g m)"
  by (simp add: six_mosaic_def separation_defs) argo

text \<open>
  C4. For every template of the catalogue with \<open>photoCount \<ge> 2\<close>, every canvas size, gutter
  \<open>g \<ge> 0\<close> and margin \<open>m \<ge> 0\<close> for which all generated rectangles have positive width and
  height: no two of the rectangles overlap (as closed rectangles: they do not even touch),
  and every rectangle lies entirely on one side of the gutter strip
  \<open>[w/2 - g/2, w/2 + g/2]\<close>.
\<close>

theorem frames_apart_and_clear_of_gutter:
  assumes "t \<in> set LAYOUT_TEMPLATES" and "2 \<le> photoCount t"
    and "0 \<le> g" and "0 \<le> m"
    and "\<forall>r\<in>set (generateFrames t w h g m). positive_size r"
  shows "(\<forall>i j. i < j \<and> j < length (generateFrames t w h g m) \<longrightarrow>
            \<not> overlap (generateFrames t w h g m ! i) (generateFrames t w h g m ! j)) \<and>
         (\<forall>r\<in>set (generateFrames t w h g m). clear_of_gutter w g r)"
proof -
  have pos: "list_all positive_size (generateFrames t w h g m)"
    using assms(5) by (simp add: list_all_iff)
  have "t \<noteq> single_full"
    using assms(2) by (auto simp: single_full_def)
  with catalogue_cases [OF assms(1)]
  have "sorted_wrt (\<lambda>a b. \<not> overlap a b) (generateFrames t w h g m) \<and>
        list_all (clear_of_gutter w g) (generateFrames t w h g m)"
    using pos two_side_by_side_apart [OF assms(3,4)] three_one_two_apart [OF assms(3,4)]
      four_grid_apart [OF assms(3,4)] six_mosaic_apart [OF assms(3,4)]
    by blast
  then show ?thesis
    by (simp add: sorted_wrt_iff_nth_less list_all_iff)
qed

theorem frames_apart_and_clear_of_gutter_witness:
  "six_mosaic \<in> set LAYOUT_TEMPLATES \<and> 2 \<le> photoCount six_mosaic \<and>
   (0::real) \<le> 75 \<and> (0::real) \<le> 60 \<and>
   list_all positive_size (generateFrames six_mosaic 5400 3600 75 60) \<and>
   \<not> overlap (generateFrames six_mosaic 5400 3600 75 60 ! 2)
             (generateFrames six_mosaic 5400 3600 75 60 ! 3) \<and>
   list_all (clear_of_gutter 5400 75) (generateFrames six_mosaic 5400 3600 75 60)"
  using frames_apart_and_clear_of_gutter [of six_mosaic 75 60 5400 3600]
  by (simp add: LAYOUT_TEMPLATES_def six_mosaic_def separation_defs list_all_iff)

subsection \<open>Unit conversion round trip\<close>

text \<open>
  C7. For every dpi \<open>d > 0\<close> and every inch value \<open>i \<ge> 0\<close>, converting to pixels (with
  rounding) and back (without) changes \<open>i\<close> by at most \<open>1/d\<close>.
\<close>

theorem inches_pixels_roundtrip:
  assumes "0 < d" and "0 \<le> i"
  shows "\<bar>pixelsToInches (inchesToPixels i d) d - i\<bar> \<le> 1 / d"
proof -
  define e where "e = real_of_int (round (i * d)) - i * d"
  have "\<bar>e\<bar> \<le> 1 / 2"
    unfolding e_def by (rule of_int_round_abs_le)
  then have "\<bar>e\<bar> \<le> 1" by simp
  then have "\<bar>e\<bar> / d \<le> 1 / d"
    using assms(1) by (simp add: divide_right_mono)
  moreover have "real_of_int (round (i * d)) / d - i = e / d"
    using assms(1) by (simp add: e_def field_simps)
  ultimately show ?thesis
    using assms(1) by (simp add: pixelsToInches_def inchesToPixels_def)
qed

theorem inches_pixels_roundtrip_witness:
  "(0::real) < 300 \<and> (0::real) \<le> 1 / 7 \<and> inchesToPixels (1 / 7) 300 = 43 \<and>
   pixelsToInches (inchesToPixels (1 / 7) 300) 300 \<noteq> 1 / 7 \<and>
   \<bar>pixelsToInches (inchesToPixels (1 / 7) 300) 300 - 1 / 7\<bar> \<le> 1 / 300"
  using inches_pixels_roundtrip [of 300 "1 / 7"]
  by (simp add: inchesToPixels_def pixelsToInches_def round_def)

subsection \<open>Cover fit\<close>

text \<open>
  C2, as amended. For an image and a frame of positive width and height: when the image's
  aspect ratio is strictly greater than the frame's, the scale is
  \<open>frameHeight / imageHeight\<close>, \<open>offsetY = 0\<close>, and the centring offset
  \<open>offsetX = (frameWidth - imageWidth * scale) / 2\<close> is strictly negative (the scaled image
  is wider than the frame and overflows it equally on both sides); otherwise the scale is
  \<open>frameWidth / imageWidth\<close>, \<open>offsetX = 0\<close> and
  \<open>offsetY = (frameHeight - imageHeight * scale) / 2\<close>.
\<close>

theorem coverFit_cases:
  assumes "0 < iw" and "0 < ih" and "0 < fw" and "0 < fh"
  shows "(iw / ih > fw / fh \<longrightarrow>
            coverFit iw ih fw fh = Some (fh / ih, (fw - iw * (fh / ih)) / 2, 0) \<and>
            (fw - iw * (fh / ih)) / 2 < 0) \<and>
         (\<not> iw / ih > fw / fh \<longrightarrow>
            coverFit iw ih fw fh = Some (fw / iw, 0, (fh - ih * (fw / iw)) / 2))"
proof -
  have "fw < iw * (fh / ih)" if "iw / ih > fw / fh"
  proof -
    from that assms have "fw * ih < iw * fh"
      by (simp add: field_simps)
    then show ?thesis
      using assms by (simp add: field_simps)
  qed
  then show ?thesis
    using assms by (auto simp: coverFit_def js_div_def Let_def)
qed

theorem coverFit_cases_witness:
  "(0::real) < 4000 \<and> (0::real) < 2000 \<and> (0::real) < 900 \<and> (0::real) < 600 \<and>
   (4000::real) / 2000 > 900 / 600 \<and>
   coverFit 4000 2000 900 600 = Some (3 / 10, - 150, 0) \<and>
   \<not> (600::real) / 2000 > 900 / 600 \<and>
   coverFit 600 2000 900 600 = Some (3 / 2, 0, - 1200)"
  using coverFit_cases [of 4000 2000 900 600] coverFit_cases [of 600 2000 900 600]
  by simp

text \<open>
  C2 as stated fails: a 200 by 100 image in a 100 by 100 frame is wider than the frame,
  and its \<open>offsetX\<close> is \<open>-50\<close>, not a positive number.
\<close>

theorem coverFit_offsetX_counterexample:
  "(200::real) / 100 > 100 / 100 \<and> coverFit 200 100 100 100 = Some (1, - 50, 0) \<and>
   \<not> (0::real) < - 50"
  by (simp add: coverFit_def js_div_def Let_def)

text \<open>
  With a frame of height 0 the frame's aspect ratio is Infinity, the comparison fails and
  the second branch gives real numbers.
\<close>

lemma coverFit_zero_frame_height: "coverFit 4000 2000 1000 0 = Some (1 / 4, 0, - 250)"
  by (simp add: coverFit_def js_div_def Let_def)

subsection \<open>Template selection\<close>

text \<open>The head of a stable sort by key is the first element of least key.\<close>

lemma hd_insort_key:
  "hd (insort_key f a xs) = (if xs = [] \<or> f a \<le> f (hd xs) then a else hd xs)"
  by (cases xs) auto

lemma sort_key_eq_Nil: "sort_key f xs = [] \<longleftrightarrow> xs = []"
  by (metis length_0_conv length_sort)

lemma hd_sort_key_first_least:
  "xs \<noteq> [] \<Longrightarrow>
   \<exists>i<length xs. hd (sort_key f xs) = xs ! i \<and>
      (\<forall>j<length xs. f (xs ! i) \<le> f (xs ! j)) \<and> (\<forall>j<i. f (xs ! i) < f (xs ! j))"
proof (induction xs)
  case Nil
  then show ?case by simp
next
  case (Cons a xs)
  show ?case
  proof (cases "xs = []")
    case True
    then show ?thesis by simp
  next
    case False
    from Cons.IH [OF False] obtain i where i: "i < length xs" "hd (sort_key f xs) = xs ! i"
      "\<forall>j<length xs. f (xs ! i) \<le> f (xs ! j)" "\<forall>j<i. f (xs ! i) < f (xs ! j)"
      by blast
    have hd: "hd (sort_key f (a # xs)) = (if f a \<le> f (xs ! i) then a else xs ! i)"
      using False i(2) by (simp add: hd_insort_key sort_key_eq_Nil)
    show ?thesis
    proof (cases "f a \<le> f (xs ! i)")
      case True
      have "\<forall>j<length (a # xs). f ((a # xs) ! 0) \<le> f ((a # xs) ! j)"
      proof (intro allI impI)
        fix j assume "j < length (a # xs)"
        then show "f ((a # xs) ! 0) \<le> f ((a # xs) ! j)"
          using True i(3) by (cases j) (auto intro: order_trans)
      qed
      with hd True show ?thesis
        by (intro exI [of _ 0]) simp
    next
      case later: False
      have least: "\<forall>j<length (a # xs). f ((a # xs) ! Suc i) \<le> f ((a # xs) ! j)"
      proof (intro allI impI)
        fix j assume "j < length (a # xs)"
        then show "f ((a # xs) ! Suc i) \<le> f ((a # xs) ! j)"
          using later i(3) by (cases j) auto
      qed
      have first: "\<forall>j<Suc i. f ((a # xs) ! Suc i) < f ((a # xs) ! j)"
      proof (intro allI impI)
        fix j assume "j < Suc i"
        then show "f ((a # xs) ! Suc i) < f ((a # xs) ! j)"
          using later i(4) by (cases j) auto
      qed
      from hd later least first i(1) show ?thesis
        by (intro exI [of _ "Suc i"]) simp
    qed
  qed
qed

lemma getLayout_not_exact:
  "find (\<lambda>t. photoCount t = n) LAYOUT_TEMPLATES = None \<Longrightarrow>
   getLayoutForPhotoCount n = Some (hd (sort_key (\<lambda>t. \<bar>photoCount t - n\<bar>) LAYOUT_TEMPLATES))"
  using catalogue_nonempty
  by (simp add: getLayoutForPhotoCount_def Let_def sort_key_eq_Nil split: list.split)

lemma getLayout_first_nearest:
  "\<exists>i<length LAYOUT_TEMPLATES.
      getLayoutForPhotoCount n = Some (LAYOUT_TEMPLATES ! i) \<and>
      (\<forall>j<length LAYOUT_TEMPLATES.
         \<bar>photoCount (LAYOUT_TEMPLATES ! i) - n\<bar> \<le> \<bar>photoCount (LAYOUT_TEMPLATES ! j) - n\<bar>) \<and>
      (\<forall>j<i. \<bar>photoCount (LAYOUT_TEMPLATES ! i) - n\<bar> < \<bar>photoCount (LAYOUT_TEMPLATES ! j) - n\<bar>)"
proof (cases "find (\<lambda>t. photoCount t = n) LAYOUT_TEMPLATES")
  case None
  from hd_sort_key_first_least [OF catalogue_nonempty, of "\<lambda>t. \<bar>photoCount t - n\<bar>"]
  show ?thesis
    by (simp add: getLayout_not_exact [OF None])
next
  case (Some t)
  then obtain i where i: "i < length LAYOUT_TEMPLATES" "photoCount (LAYOUT_TEMPLATES ! i) = n"
    "t = LAYOUT_TEMPLATES ! i" "\<forall>j<i. photoCount (LAYOUT_TEMPLATES ! j) \<noteq> n"
    by (auto simp: find_Some_iff)
  have "getLayoutForPhotoCount n = Some (LAYOUT_TEMPLATES ! i)"
    using Some i(3) by (simp add: getLayoutForPhotoCount_def)
  moreover have
    "\<forall>j<i. \<bar>photoCount (LAYOUT_TEMPLATES ! i) - n\<bar> < \<bar>photoCount (LAYOUT_TEMPLATES ! j) - n\<bar>"
    using i(2,4) by auto
  ultimately show ?thesis
    using i(1,2) by (intro exI [of _ i]) simp
qed

lemma getLayout_in_catalogue: "\<exists>t\<in>set LAYOUT_TEMPLATES. getLayoutForPhotoCount n = Some t"
  using getLayout_first_nearest [of n] by (metis nth_mem)

lemma getLayout_exact:
  assumes "t \<in> set LAYOUT_TEMPLATES" and "photoCount t = n"
  shows "\<exists>t'. getLayoutForPhotoCount n = Some t' \<and> photoCount t' = n"
proof -
  from assms obtain t' where found: "find (\<lambda>t. photoCount t = n) LAYOUT_TEMPLATES = Some t'"
    by (cases "find (\<lambda>t. photoCount t = n) LAYOUT_TEMPLATES") (auto simp: find_None_iff)
  then have "photoCount t' = n"
    by (auto simp: find_Some_iff)
  with found show ?thesis
    by (simp add: getLayoutForPhotoCount_def)
qed

text \<open>
  C3. \<open>getLayoutForPhotoCount n\<close> returns a template whose \<open>photoCount\<close> is \<open>n\<close> when the
  catalogue has one. In every case the template returned is at some position \<open>i\<close> of the
  catalogue, no template of the catalogue is nearer to \<open>n\<close> in \<open>photoCount\<close>, and every
  template before position \<open>i\<close> is strictly farther: ties go to the template defined first.
  For \<open>n = 5\<close> that is Four Grid.
\<close>

theorem getLayoutForPhotoCount_nearest_first:
  "((\<exists>t\<in>set LAYOUT_TEMPLATES. photoCount t = n) \<longrightarrow>
      (\<exists>t. getLayoutForPhotoCount n = Some t \<and> photoCount t = n)) \<and>
   (\<exists>i<length LAYOUT_TEMPLATES.
      getLayoutForPhotoCount n = Some (LAYOUT_TEMPLATES ! i) \<and>
      (\<forall>j<length LAYOUT_TEMPLATES.
         \<bar>photoCount (LAYOUT_TEMPLATES ! i) - n\<bar> \<le> \<bar>photoCount (LAYOUT_TEMPLATES ! j) - n\<bar>) \<and>
      (\<forall>j<i. \<bar>photoCount (LAYOUT_TEMPLATES ! i) - n\<bar> < \<bar>photoCount (LAYOUT_TEMPLATES ! j) - n\<bar>)) \<and>
   getLayoutForPhotoCount 5 = Some four_grid \<and> photoCount four_grid = 4"
proof -
  have "getLayoutForPhotoCount 5 = Some four_grid \<and> photoCount four_grid = 4"
    by (simp add: getLayoutForPhotoCount_def LAYOUT_TEMPLATES_def template_defs)
  with getLayout_exact [of _ n] getLayout_first_nearest [of n] show ?thesis
    by blast
qed

theorem getLayoutForPhotoCount_nearest_first_witness:
  "six_mosaic \<in> set LAYOUT_TEMPLATES \<and> photoCount six_mosaic = 6 \<and>
   getLayoutForPhotoCount 6 = Some six_mosaic \<and>
   getLayoutForPhotoCount 9 = Some six_mosaic \<and>
   getLayoutForPhotoCount 5 = Some four_grid \<and>
   \<bar>photoCount four_grid - 5\<bar> = \<bar>photoCount six_mosaic - 5\<bar>"
  using getLayoutForPhotoCount_nearest_first [of 6] getLayoutForPhotoCount_nearest_first [of 9]
  by (simp add: getLayoutForPhotoCount_def LAYOUT_TEMPLATES_def template_defs)

subsection \<open>Frames for a photo list\<close>

lemma truncate_extend: "TemplateFrame.truncate (TemplateFrame.extend r (PhotoFrame.fields a b)) = r"
  by (simp add: TemplateFrame.defs PhotoFrame.defs)

lemma photoId_extend: "photoId (TemplateFrame.extend r (PhotoFrame.fields a b)) = b"
  by (simp add: TemplateFrame.defs PhotoFrame.defs)

lemma frame_id_extend: "frame_id (TemplateFrame.extend r (PhotoFrame.fields a b)) = a"
  by (simp add: TemplateFrame.defs PhotoFrame.defs)

lemma gffl_length:
  "length (fst (generateFramesForLayout uuid k t photos w h g margin)) =
   min (length photos) (length (generateFrames t w h g (case margin of None \<Rightarrow> MARGIN | Some m \<Rightarrow> m)))"
  by (simp add: generateFramesForLayout_def Let_def min.commute)

lemma gffl_truncate:
  "map TemplateFrame.truncate (fst (generateFramesForLayout uuid k t photos w h g margin)) =
   take (length photos) (generateFrames t w h g (case margin of None \<Rightarrow> MARGIN | Some m \<Rightarrow> m))"
  by (simp add: generateFramesForLayout_def Let_def truncate_extend split_def o_def map_snd_enumerate)

lemma gffl_nth:
  assumes "i < length (fst (generateFramesForLayout uuid k t photos w h g margin))"
  shows "photoId (fst (generateFramesForLayout uuid k t photos w h g margin) ! i) = photo_id (photos ! i) \<and>
         frame_id (fst (generateFramesForLayout uuid k t photos w h g margin) ! i) = uuid (k + i)"
  using assms
  by (simp add: generateFramesForLayout_def Let_def nth_enumerate_eq photoId_extend frame_id_extend)

lemma gffl_snd:
  "snd (generateFramesForLayout uuid k t photos w h g margin)
     = k + length (fst (generateFramesForLayout uuid k t photos w h g margin))"
  by (simp add: generateFramesForLayout_def Let_def)

lemma gffl_length_catalogue:
  "t \<in> set LAYOUT_TEMPLATES \<Longrightarrow>
   length (fst (generateFramesForLayout uuid k t photos w h g margin)) =
   min (length photos) (nat (photoCount t))"
  using length_generateFrames [of t w h g "case margin of None \<Rightarrow> MARGIN | Some m \<Rightarrow> m"]
  by (simp add: gffl_length)


text \<open>
  C5. For every template of the catalogue and every photo list shorter than the template's
  \<open>photoCount\<close>, \<open>generateFramesForLayout\<close> returns exactly as many frames as there are
  photos: they are the first rectangles of the template, in order, the others dropped, and
  the frame at each index carries the \<open>photoId\<close> of the photo at that index.
\<close>

theorem generateFramesForLayout_fewer_photos:
  assumes "t \<in> set LAYOUT_TEMPLATES" and "int (length photos) < photoCount t"
  shows "length (fst (generateFramesForLayout uuid k t photos w h g margin)) = length photos \<and>
         map TemplateFrame.truncate (fst (generateFramesForLayout uuid k t photos w h g margin)) =
           take (length photos)
             (generateFrames t w h g (case margin of None \<Rightarrow> MARGIN | Some m \<Rightarrow> m)) \<and>
         (\<forall>i<length photos.
            photoId (fst (generateFramesForLayout uuid k t photos w h g margin) ! i) =
              photo_id (photos ! i))"
proof -
  have len: "length (fst (generateFramesForLayout uuid k t photos w h g margin)) = length photos"
    using assms by (simp add: gffl_length_catalogue [OF assms(1)])
  with gffl_nth [of _ uuid k t photos w h g margin] gffl_truncate [of uuid k t photos w h g margin]
  show ?thesis by simp
qed

theorem generateFramesForLayout_fewer_photos_witness:
  "three_one_two \<in> set LAYOUT_TEMPLATES \<and>
   int (length [example_photo ''p1'', example_photo ''p2'']) < photoCount three_one_two \<and>
   map photoId
     (fst (generateFramesForLayout (\<lambda>n. replicate n CHR ''u'') 0 three_one_two
        [example_photo ''p1'', example_photo ''p2''] 5400 3600 75 None)) = [''p1'', ''p2'']"
  using generateFramesForLayout_fewer_photos [of three_one_two
        "[example_photo ''p1'', example_photo ''p2'']"]
  by (simp add: LAYOUT_TEMPLATES_def three_one_two_def generateFramesForLayout_def Let_def
        photoId_extend example_photo_def)

subsection \<open>Spreads from a photo list\<close>

lemma chunk_as_range:
  "take p (drop s xs) = map ((!) xs) [s ..< min (s + p) (length xs)]"
  by (rule nth_equalityI) (auto simp: min_def split: if_splits)


lemma ceil_div: "0 < p \<Longrightarrow> nat \<lceil>real n / real p\<rceil> = (n + p - 1) div p"
proof -
  assume p: "0 < p"
  define q where "q = (n + p - 1) div p"
  define r where "r = (n + p - 1) mod p"
  have eq: "n + p - 1 = q * p + r" and r: "r < p"
    using p by (simp_all add: q_def r_def)
  have up: "real n \<le> real q * real p"
  proof -
    from eq r have "n \<le> q * p" by linarith
    then show ?thesis by (metis of_nat_le_iff of_nat_mult)
  qed
  have lo: "real q * real p < real n + real p"
  proof -
    from eq p have "q * p < n + p" by linarith
    then show ?thesis by (metis of_nat_less_iff of_nat_mult of_nat_add)
  qed
  have "\<lceil>real n / real p\<rceil> = int q"
  proof (rule ceiling_unique)
    show "real_of_int (int q) - 1 < real n / real p"
      using p lo by (simp add: field_simps)
    show "real n / real p \<le> real_of_int (int q)"
      using p up by (simp add: field_simps)
  qed
  then show ?thesis by (simp add: q_def)
qed


lemma loop_exit:
  "\<not> i < length photos \<Longrightarrow>
   autoGenerateSpreads_loop uuid photos p cw ch gw m i k acc = Inr (acc, k)"
  by (subst autoGenerateSpreads_loop.simps) simp

lemma loop_step:
  assumes "i < length photos" and "0 < p"
    and "getLayoutForPhotoCount (int (length (take p (drop i photos)))) = Some t"
  shows "autoGenerateSpreads_loop uuid photos p cw ch gw m i k acc =
         autoGenerateSpreads_loop uuid photos p cw ch gw m (i + p)
           (snd (generateFramesForLayout uuid k t (take p (drop i photos)) cw ch gw (Some m)))
           (acc @ [\<lparr> frames = fst (generateFramesForLayout uuid k t (take p (drop i photos)) cw ch gw (Some m)) \<rparr>])"
  using assms
  by (subst autoGenerateSpreads_loop.simps) (simp add: Let_def split_def)

lemma loop_zero:
  "autoGenerateSpreads_loop uuid photos 0 cw ch gw m i k acc =
   (if i < length photos then Inl Loops_forever else Inr (acc, k))"
  by (subst autoGenerateSpreads_loop.simps) simp

lemma chunks_left:
  assumes "i < n" and "0 < p"
  shows "(n - i + p - 1) div p = Suc ((n - (i + p) + p - 1) div p)"
proof -
  define a where "a = n - (i + p) + p - 1"
  define b where "b = n - i + p - 1"
  have "b div p = Suc (a div p)"
  proof (cases "i + p \<le> n")
    case True
    then have "b = a + p"
      unfolding a_def b_def using assms by simp
    then show ?thesis
      using assms by simp
  next
    case False
    define c where "c = n - i - 1"
    from False have "a = p - 1" and "b = c + p" and "c < p"
      unfolding a_def b_def c_def using assms by simp_all
    then show ?thesis
      using assms by simp
  qed
  then show ?thesis
    by (simp only: a_def b_def)
qed

lemma loop_result:
  assumes "0 < p"
  shows "\<exists>rest k'.
           autoGenerateSpreads_loop uuid photos p cw ch gw m i k acc = Inr (acc @ rest, k') \<and>
           length rest = (length photos - i + p - 1) div p \<and>
           (\<forall>j<length rest. \<exists>t kk.
              getLayoutForPhotoCount (int (length (take p (drop (i + j * p) photos)))) = Some t \<and>
              t \<in> set LAYOUT_TEMPLATES \<and>
              frames (rest ! j) =
                fst (generateFramesForLayout uuid kk t (take p (drop (i + j * p) photos))
                       cw ch gw (Some m)))"
proof (induction "length photos - i" arbitrary: i k acc rule: less_induct)
  case less
  show ?case
  proof (cases "i < length photos")
    case False
    then show ?thesis
      using assms by (simp add: loop_exit)
  next
    case True
    obtain t where t: "t \<in> set LAYOUT_TEMPLATES"
      "getLayoutForPhotoCount (int (length (take p (drop i photos)))) = Some t"
      using getLayout_in_catalogue by blast
    define fs where "fs = fst (generateFramesForLayout uuid k t (take p (drop i photos)) cw ch gw (Some m))"
    define k1 where "k1 = snd (generateFramesForLayout uuid k t (take p (drop i photos)) cw ch gw (Some m))"
    have step: "autoGenerateSpreads_loop uuid photos p cw ch gw m i k acc =
                autoGenerateSpreads_loop uuid photos p cw ch gw m (i + p) k1 (acc @ [\<lparr> frames = fs \<rparr>])"
      unfolding fs_def k1_def by (rule loop_step [OF True assms t(2)])
    have "length photos - (i + p) < length photos - i"
      using True assms by simp
    from less [OF this, of k1 "acc @ [\<lparr> frames = fs \<rparr>]"]
    obtain rest k' where rest:
      "autoGenerateSpreads_loop uuid photos p cw ch gw m (i + p) k1 (acc @ [\<lparr> frames = fs \<rparr>])
         = Inr ((acc @ [\<lparr> frames = fs \<rparr>]) @ rest, k')"
      "length rest = (length photos - (i + p) + p - 1) div p"
      "\<forall>j<length rest. \<exists>t kk.
          getLayoutForPhotoCount (int (length (take p (drop (i + p + j * p) photos)))) = Some t \<and>
          t \<in> set LAYOUT_TEMPLATES \<and>
          frames (rest ! j) =
            fst (generateFramesForLayout uuid kk t (take p (drop (i + p + j * p) photos))
                   cw ch gw (Some m))"
      by blast
    have len: "length (\<lparr> frames = fs \<rparr> # rest) = (length photos - i + p - 1) div p"
      using rest(2) chunks_left [OF True assms] by simp
    have each: "\<exists>t kk.
        getLayoutForPhotoCount (int (length (take p (drop (i + j * p) photos)))) = Some t \<and>
        t \<in> set LAYOUT_TEMPLATES \<and>
        frames ((\<lparr> frames = fs \<rparr> # rest) ! j) =
          fst (generateFramesForLayout uuid kk t (take p (drop (i + j * p) photos))
                 cw ch gw (Some m))"
      if "j < length (\<lparr> frames = fs \<rparr> # rest)" for j
    proof (cases j)
      case 0
      with t show ?thesis
        by (auto simp: fs_def)
    next
      case (Suc j')
      with that have "j' < length rest" by simp
      with rest(3) Suc show ?thesis
        by (simp add: add.assoc add.commute [of p])
    qed
    from step rest(1) len each show ?thesis
      by (intro exI [of _ "\<lparr> frames = fs \<rparr> # rest"] exI [of _ k']) simp
  qed
qed

text \<open>
  C6. For every non-empty photo list and every \<open>photosPerSpread = p > 0\<close>,
  \<open>autoGenerateSpreads\<close> returns \<open>\<lceil>length photos / p\<rceil>\<close> frame lists. The one at position
  \<open>i\<close> is what \<open>generateFramesForLayout\<close> makes of chunk \<open>i\<close>, the photos at the indices
  from \<open>i * p\<close> up to \<open>min ((i + 1) * p) (length photos) - 1\<close>, with the template that
  \<open>getLayoutForPhotoCount\<close> returns for the chunk's length; its number of frames is the
  smaller of the chunk's length and that template's \<open>photoCount\<close>.
\<close>

theorem autoGenerateSpreads_chunks:
  assumes "photos \<noteq> []" and "0 < p"
  shows "\<exists>spreads k'.
           autoGenerateSpreads uuid k photos p album = Inr (spreads, k') \<and>
           length spreads = nat \<lceil>real (length photos) / real p\<rceil> \<and>
           (\<forall>i<length spreads. \<exists>t kk.
              getLayoutForPhotoCount
                (int (length (map ((!) photos) [i * p ..< min ((i + 1) * p) (length photos)]))) = Some t \<and>
              frames (spreads ! i) =
                fst (generateFramesForLayout uuid kk t
                       (map ((!) photos) [i * p ..< min ((i + 1) * p) (length photos)])
                       (fst (getCanvasDimensions album)) (snd (getCanvasDimensions album))
                       (getGutterPixels album)
                       (Some (real_of_int (round (dpi album * 0.2))))) \<and>
              length (frames (spreads ! i)) =
                min (length (map ((!) photos) [i * p ..< min ((i + 1) * p) (length photos)]))
                    (nat (photoCount t)))"
proof -
  define cw where "cw = fst (getCanvasDimensions album)"
  define ch where "ch = snd (getCanvasDimensions album)"
  define gw where "gw = getGutterPixels album"
  define m where "m = real_of_int (round (dpi album * 0.2))"
  have unfold: "autoGenerateSpreads uuid k photos p album =
                autoGenerateSpreads_loop uuid photos p cw ch gw m 0 k []"
    by (simp add: autoGenerateSpreads_def cw_def ch_def gw_def m_def split_def Let_def)
  from loop_result [OF assms(2), of uuid photos cw ch gw m 0 k "[]"]
  obtain spreads k' where res:
    "autoGenerateSpreads_loop uuid photos p cw ch gw m 0 k [] = Inr (spreads, k')"
    "length spreads = (length photos + p - 1) div p"
    "\<forall>j<length spreads. \<exists>t kk.
        getLayoutForPhotoCount (int (length (take p (drop (j * p) photos)))) = Some t \<and>
        t \<in> set LAYOUT_TEMPLATES \<and>
        frames (spreads ! j) =
          fst (generateFramesForLayout uuid kk t (take p (drop (j * p) photos)) cw ch gw (Some m))"
    by auto
  have chunk: "take p (drop (j * p) photos) = map ((!) photos) [j * p ..< min ((j + 1) * p) (length photos)]" for j
    by (simp add: chunk_as_range add.commute)
  have "\<exists>t kk.
      getLayoutForPhotoCount
        (int (length (map ((!) photos) [j * p ..< min ((j + 1) * p) (length photos)]))) = Some t \<and>
      frames (spreads ! j) =
        fst (generateFramesForLayout uuid kk t
               (map ((!) photos) [j * p ..< min ((j + 1) * p) (length photos)]) cw ch gw (Some m)) \<and>
      length (frames (spreads ! j)) =
        min (length (map ((!) photos) [j * p ..< min ((j + 1) * p) (length photos)]))
            (nat (photoCount t))"
    if "j < length spreads" for j
  proof -
    from res(3) that obtain t kk where t:
      "getLayoutForPhotoCount (int (length (take p (drop (j * p) photos)))) = Some t"
      "t \<in> set LAYOUT_TEMPLATES"
      "frames (spreads ! j) =
         fst (generateFramesForLayout uuid kk t (take p (drop (j * p) photos)) cw ch gw (Some m))"
      by blast
    have "length (frames (spreads ! j)) = min (length (take p (drop (j * p) photos))) (nat (photoCount t))"
      unfolding t(3) by (rule gffl_length_catalogue [OF t(2)])
    with t(1,3) show ?thesis
      unfolding chunk by blast
  qed
  with res(1,2) unfold show ?thesis
    unfolding cw_def ch_def gw_def m_def ceil_div [OF assms(2)]
    by (intro exI [of _ spreads] exI [of _ k']) simp
qed

theorem autoGenerateSpreads_chunks_witness:
  "[example_photo ''p1'', example_photo ''p2'', example_photo ''p3''] \<noteq> [] \<and> (0::nat) < 2 \<and>
   map (\<lambda>s. map photoId (frames s))
     (fst (projr (autoGenerateSpreads (\<lambda>n. replicate n CHR ''u'') 0
        [example_photo ''p1'', example_photo ''p2'', example_photo ''p3''] 2 example_album)))
     = [[''p1'', ''p2''], [''p3'']]"
  using autoGenerateSpreads_chunks [of "[example_photo ''p1'', example_photo ''p2'', example_photo ''p3'']" 2
      "\<lambda>n. replicate n CHR ''u''" 0 example_album]
  by (simp add: autoGenerateSpreads_def autoGenerateSpreads_loop.simps getLayoutForPhotoCount_def
        LAYOUT_TEMPLATES_def template_defs generateFramesForLayout_def Let_def photoId_extend
        example_photo_def getCanvasDimensions_def split_def)

subsection \<open>Template selection is total\<close>

text \<open>
  C10. \<open>getLayoutForPhotoCount\<close> returns a template of the catalogue for every integer,
  zero and the negative ones included; for every \<open>n \<le> 1\<close> it is Single Full Bleed, whose
  \<open>photoCount\<close> is 1; and \<open>autoGenerateSpreads\<close> never fails for want of a template.
\<close>

theorem getLayoutForPhotoCount_total:
  "(\<exists>t\<in>set LAYOUT_TEMPLATES. getLayoutForPhotoCount n = Some t) \<and>
   (n \<le> 1 \<longrightarrow> getLayoutForPhotoCount n = Some single_full) \<and>
   photoCount single_full = 1 \<and>
   autoGenerateSpreads uuid k photos p album \<noteq> Inl TypeError_no_template"
proof -
  have a: "getLayoutForPhotoCount n = Some single_full" if "n \<le> 1"
    using that
    by (cases "n = 1") (simp_all add: getLayoutForPhotoCount_def LAYOUT_TEMPLATES_def template_defs)
  have b: "autoGenerateSpreads uuid k photos p album \<noteq> Inl TypeError_no_template"
  proof (cases "p = 0")
    case True
    then show ?thesis
      by (simp add: autoGenerateSpreads_def split_def Let_def loop_zero)
  next
    case False
    then have "0 < p" by simp
    from loop_result [OF this, of uuid photos "fst (getCanvasDimensions album)"
        "snd (getCanvasDimensions album)" "getGutterPixels album"
        "real_of_int (round (dpi album * 0.2))" 0 k "[]"]
    obtain rest k' where
      "autoGenerateSpreads_loop uuid photos p (fst (getCanvasDimensions album))
         (snd (getCanvasDimensions album)) (getGutterPixels album)
         (real_of_int (round (dpi album * 0.2))) 0 k [] = Inr (rest, k')"
      by auto
    then show ?thesis
      by (simp add: autoGenerateSpreads_def split_def Let_def)
  qed
  from a b getLayout_in_catalogue [of n] show ?thesis
    by (simp add: single_full_def)
qed

theorem getLayoutForPhotoCount_total_witness:
  "(0::int) \<le> 1 \<and> getLayoutForPhotoCount 0 = Some single_full \<and>
   (- 3::int) \<le> 1 \<and> getLayoutForPhotoCount (- 3) = Some single_full"
  using getLayoutForPhotoCount_total [of 0] getLayoutForPhotoCount_total [of "- 3"]
  by simp

subsection \<open>Export progress\<close>



lemma progress_of_snoc:
  "progress_of n i (Suc len) =
   progress_of n i len @ [real (i + len) / real n * 100, real (i + len + 1) / real n * 100]"
  by (simp add: progress_of_def)














subsection \<open>Frames that fail to draw\<close>

lemma setup_no_draw: "filter is_DrawImage (frame_setup_ops f) = []"
  by (simp add: frame_setup_ops_def)

lemma is_DrawImage_call: "is_DrawImage (drawImage_call f img)"
  by (simp add: drawImage_call_def)

lemma renderFrame_draws:
  "filter is_DrawImage (fst (renderFrame env f st)) =
   filter is_DrawImage (fst st) @
     (case frame_image env f of Some img \<Rightarrow> [drawImage_call f img] | None \<Rightarrow> [])"
  by (cases st)
     (auto simp: renderFrame_def frame_image_def setup_no_draw is_DrawImage_call
        split: option.splits sum.splits)

lemma fold_renderFrame_draws:
  "filter is_DrawImage (fst (fold (renderFrame env) fs st)) =
   filter is_DrawImage (fst st) @
     concat (map (\<lambda>f. case frame_image env f of Some img \<Rightarrow> [drawImage_call f img] | None \<Rightarrow> []) fs)"
  by (induction fs arbitrary: st) (simp_all add: renderFrame_draws)

text \<open>
  The model records the calls on the context, not the pixels they paint. When no
  \<^verbatim>\<open>drawImage\<close> call throws, every \<^verbatim>\<open>ctx.save()\<close> of a spread's render is followed by
  its \<^verbatim>\<open>ctx.restore()\<close>; a draw that throws is caught after the save and the clip, and
  the restore of that frame is not made.
\<close>

lemma setup_saves_once:
  "length (filter (\<lambda>op. op = Save) (frame_setup_ops f)) = 1 \<and>
   filter (\<lambda>op. op = Restore) (frame_setup_ops f) = []"
  by (simp add: frame_setup_ops_def)

lemma renderFrame_balanced:
  assumes "\<forall>img. drawImage env img = None"
  shows "int (length (filter (\<lambda>op. op = Save) (fst (renderFrame env f st)))) -
         int (length (filter (\<lambda>op. op = Restore) (fst (renderFrame env f st)))) =
         int (length (filter (\<lambda>op. op = Save) (fst st))) -
         int (length (filter (\<lambda>op. op = Restore) (fst st)))"
  using assms
  by (cases st)
     (auto simp: renderFrame_def setup_saves_once drawImage_call_def
        split: option.splits sum.splits)

lemma renderSpread_balanced:
  assumes "\<forall>img. drawImage env img = None"
  shows "length (filter (\<lambda>op. op = Save) (fst (renderSpread env dims fs console))) =
         length (filter (\<lambda>op. op = Restore) (fst (renderSpread env dims fs console)))"
proof -
  have "int (length (filter (\<lambda>op. op = Save) (fst (fold (renderFrame env) fs st)))) -
        int (length (filter (\<lambda>op. op = Restore) (fst (fold (renderFrame env) fs st)))) =
        int (length (filter (\<lambda>op. op = Save) (fst st))) -
        int (length (filter (\<lambda>op. op = Restore) (fst st)))" for st
    by (induction fs arbitrary: st) (simp_all add: renderFrame_balanced [OF assms])
  from this [of "([FillStyle ''#ffffff'', FillRect 0 0 (fst dims) (snd dims)], console)"]
  show ?thesis
    by (simp add: renderSpread_def)
qed

text \<open>
  The \<^verbatim>\<open>drawImage\<close> calls of a spread's render are exactly those of the frames whose
  photo resolves to an image, in frame order: a frame whose URL is absent, whose blob is
  missing or cannot be read, whose image does not load or whose draw throws, adds no draw
  call.
\<close>

lemma draw_calls_of_spread:
  "filter is_DrawImage (fst (renderSpread env dims fs console)) =
     concat (map (\<lambda>f. case frame_image env f of
                          Some img \<Rightarrow> [drawImage_call f img]
                        | None \<Rightarrow> []) fs)"
  by (simp add: renderSpread_def fold_renderFrame_draws)

text \<open>
  When no \<^verbatim>\<open>drawImage\<close> call throws, every draw is made under the changes of its own
  frame and nothing else: the frames that fail before their draw leave the context as it
  was.
\<close>

lemma draws_under_append:
  "draws_under (ops @ ops') c = draws_under ops c @ draws_under ops' (fold ctx_step ops c)"
proof (induction ops arbitrary: c)
  case Nil
  then show ?case by simp
next
  case (Cons op ops)
  then show ?case by (cases op) simp_all
qed

lemma setup_changes:
  "fold ctx_step (frame_setup_ops f) (st, path, saved) =
     (st @ frame_changes f, [(x f, y f, width f, height f)], st # saved) \<and>
   draws_under (frame_setup_ops f) (st, path, saved) = []"
  by (simp add: frame_setup_ops_def frame_changes_def)

lemma renderFrame_draws_under:
  assumes "\<forall>img. drawImage env img = None"
    and "fold ctx_step ops c0 = (st, path, saved)"
  shows "\<exists>path'. fold ctx_step (fst (renderFrame env f (ops, con))) c0 = (st, path', saved) \<and>
         draws_under (fst (renderFrame env f (ops, con))) c0 =
           draws_under ops c0 @
             (case frame_image env f of
                Some img \<Rightarrow> [(drawImage_call f img, st @ frame_changes f)]
              | None \<Rightarrow> [])"
  using assms
  by (auto simp: renderFrame_def frame_image_def draws_under_append setup_changes drawImage_call_def
      split: option.splits sum.splits)

lemma fold_renderFrame_draws_under:
  assumes "\<forall>img. drawImage env img = None"
  shows "fold ctx_step (fst s0) c0 = (st, path, saved) \<Longrightarrow>
         draws_under (fst (fold (renderFrame env) fs s0)) c0 =
           draws_under (fst s0) c0 @
             concat (map (\<lambda>f. case frame_image env f of
                                  Some img \<Rightarrow> [(drawImage_call f img, st @ frame_changes f)]
                                | None \<Rightarrow> []) fs)"
proof (induction fs arbitrary: s0 path)
  case Nil
  then show ?case by simp
next
  case (Cons f fs)
  obtain ops con where s0: "s0 = (ops, con)" by (cases s0)
  from renderFrame_draws_under [OF assms, of ops c0 st path saved f con] Cons.prems s0
  obtain path' where step:
    "fold ctx_step (fst (renderFrame env f s0)) c0 = (st, path', saved)"
    "draws_under (fst (renderFrame env f s0)) c0 =
       draws_under (fst s0) c0 @
         (case frame_image env f of
            Some img \<Rightarrow> [(drawImage_call f img, st @ frame_changes f)]
          | None \<Rightarrow> [])"
    by auto
  from Cons.IH [OF step(1)] step(2) show ?case
    by simp
qed

lemma renderSpread_draws_under:
  assumes "\<forall>img. drawImage env img = None"
  shows "draws_under (fst (renderSpread env dims fs console)) ([], [], []) =
           concat (map (\<lambda>f. case frame_image env f of
                                Some img \<Rightarrow> [(drawImage_call f img, frame_changes f)]
                              | None \<Rightarrow> []) fs)"
  using fold_renderFrame_draws_under [OF assms,
      of "([FillStyle ''#ffffff'', FillRect 0 0 (fst dims) (snd dims)], console)" "([], [], [])"
         "[]" "[]" "[]" fs]
  by (simp add: renderSpread_def cong: option.case_cong)

lemma example_frames_eq:
  "example_frames =
     [TemplateFrame.extend (mk_frame 60 60 (5185 / 2) 3480 0) (PhotoFrame.fields ''frame-1'' ''p1''),
      TemplateFrame.extend (mk_frame (5495 / 2) 60 (5185 / 2) 3480 1) (PhotoFrame.fields ''frame-2'' ''p2'')]"
  by (simp add: example_frames_def generateFramesForLayout_def two_side_by_side_def Let_def
        SPACING_def example_photo_def)

lemmas frame_field_defs = mk_frame_def TemplateFrame.defs PhotoFrame.defs


text \<open>
  On the drawing state, the second frame's draw is made under the clip of the first frame
  as well as its own: the clipping region is the intersection of two rectangles that do not
  meet, and nothing of the second photo is painted.
\<close>

lemma draw_error_clip_in_force:
  "draws_under (fst (renderSpread example_env_draw_throws (5400, 3600) example_frames [])) ([], [], []) =
     [(DrawImage \<lparr> img_width = 3000, img_height = 2000 \<rparr> (Some (5735 / 4, 60, 5220, 3480)),
       [Clipped [(60, 60, 5185 / 2, 3480)], Clipped [(5495 / 2, 60, 5185 / 2, 3480)]])]"
  by (simp add: example_frames_eq example_env_draw_throws_def renderSpread_def
        renderFrame_def frame_setup_ops_def drawImage_call_def coverFit_def js_div_def Let_def
        frame_field_defs)

end
